theory Spec2Isabelle
  imports Main "HOL-Library.Sublist" "HOL-Library.List_Lexorder" "HOL-Library.Char_ord"
begin

section \<open>Python values used by main.py\<close>

text \<open>
  Strings are lists of 8-bit characters, read as code points below 256. Their order
  (\<open>List_Lexorder\<close> over \<open>Char_ord\<close>) is lexicographic by code point, as Python's
  comparison of \<open>str\<close> values is. Every exception class that \<open>except Exception\<close>
  catches is a value of \<open>error\<close>.
\<close>

datatype error =
  Timeout | ConnectionError | HTTPError | ParseError | AttributeError | ValueError | OtherError

text \<open>\<open>str.isspace\<close> on one character, for the code points below 256.\<close>

definition isspace :: "char \<Rightarrow> bool" where
  "isspace c =
     (let n = (of_char c :: nat)
      in (9 \<le> n \<and> n \<le> 13) \<or> (28 \<le> n \<and> n \<le> 32) \<or> n = 133 \<or> n = 160)"

text \<open>\<open>s.strip()\<close>: leading and trailing whitespace removed.\<close>

definition strip :: "string \<Rightarrow> string" where
  "strip s = rev (dropWhile isspace (rev (dropWhile isspace s)))"

text \<open>\<open>x or ""\<close> for a value that is a string or \<open>None\<close>.\<close>

definition or_empty :: "string option \<Rightarrow> string" where
  "or_empty x = (case x of None \<Rightarrow> [] | Some s \<Rightarrow> s)"

text \<open>\<open>not x\<close> for a value that is a string or \<open>None\<close>: both \<open>None\<close> and \<open>""\<close> are false.\<close>

definition falsy :: "string option \<Rightarrow> bool" where
  "falsy x = (case x of None \<Rightarrow> True | Some s \<Rightarrow> s = [])"

text \<open>
  \<open>xs[:n]\<close>, Python's slice with an integer bound: a negative bound counts from the
  end of the list, and a bound beyond either end is clipped.
\<close>

definition slice_to :: "'a list \<Rightarrow> int \<Rightarrow> 'a list" where
  "slice_to xs n =
     (if 0 \<le> n then take (nat n) xs else take (length xs - nat (- n)) xs)"

section \<open>The element tree\<close>

text \<open>
  An \<open>xml.etree.ElementTree.Element\<close>: its tag (a namespaced tag is written
  \<open>{uri}local\<close>), its attributes, its text (\<open>None\<close> when the element holds none) and
  its child elements in document order.
\<close>

datatype element =
  Element (tag: string) (attrib: "(string \<times> string) list") (text_of: "string option")
    (children: "element list")

text \<open>\<open>e.findall(t)\<close> with a plain tag: the direct children with that tag, in document order.\<close>

definition findall :: "element \<Rightarrow> string \<Rightarrow> element list" where
  "findall e t = filter (\<lambda>c. tag c = t) (children e)"

text \<open>\<open>e.find(t)\<close>: the first such child, or \<open>None\<close>.\<close>

definition find_el :: "element \<Rightarrow> string \<Rightarrow> element option" where
  "find_el e t = (case findall e t of [] \<Rightarrow> None | c # _ \<Rightarrow> Some c)"

text \<open>
  \<open>e.findtext(t)\<close>: \<open>None\<close> when no child has the tag; otherwise the text of the first
  one, an element without text giving the empty string.
\<close>

definition findtext :: "element \<Rightarrow> string \<Rightarrow> string option" where
  "findtext e t = (case find_el e t of None \<Rightarrow> None | Some c \<Rightarrow> Some (or_empty (text_of c)))"

text \<open>\<open>e.get(k)\<close>: the value of attribute \<open>k\<close>, or \<open>None\<close>.\<close>

definition get_attr :: "element \<Rightarrow> string \<Rightarrow> string option" where
  "get_attr e k = map_of (attrib e) k"

text \<open>The prefix \<open>atom:\<close> under \<open>ns = {'atom': 'http://www.w3.org/2005/Atom'}\<close>.\<close>

definition atom :: "string \<Rightarrow> string" where
  "atom name = ''{http://www.w3.org/2005/Atom}'' @ name"

section \<open>The environment of a request\<close>

record response =
  status_code :: nat
  content :: string

text \<open>\<open>resp.raise_for_status()\<close>: an \<open>HTTPError\<close> for a 4xx or 5xx status.\<close>

definition raise_for_status :: "response \<Rightarrow> error + unit" where
  "raise_for_status resp =
     (if 400 \<le> status_code resp \<and> status_code resp < 600 then Inl HTTPError else Inr ())"

text \<open>A \<open>datetime\<close> value is kept as what \<open>isoformat()\<close> renders of it.\<close>

datatype datetime = Datetime (isoformat: string)

text \<open>
  The library calls whose results the program does not compute: the HTTP request
  (with its timeout of 8 seconds), the XML parser and the RFC 2822 date parser. Each one
  either raises or returns.
\<close>

record world =
  requests_get :: "string \<Rightarrow> error + response"
  ET_fromstring :: "string \<Rightarrow> error + element"
  parsedate_to_datetime :: "string \<Rightarrow> error + datetime"

section \<open>fetch\_rss\_feed\<close>

text \<open>
  The dictionary appended for each item. \<open>title\<close> and \<open>source\<close> are always strings;
  \<open>link\<close> and \<open>published\<close> can be \<open>None\<close> on the Atom path, and \<open>published_ts\<close> is
  \<open>None\<close> whenever no date was parsed.
\<close>

record item =
  title :: string
  link :: "string option"
  published :: "string option"
  published_ts :: "string option"
  source :: string

text \<open>
  \<open>try: dt = parsedate_to_datetime(pub) if pub else None\<close>,
  \<open>except Exception: dt = None\<close>.
\<close>

definition try_parsedate :: "world \<Rightarrow> string option \<Rightarrow> datetime option" where
  "try_parsedate w pub =
     (if falsy pub then None
      else (case parsedate_to_datetime w (or_empty pub) of
              Inl e \<Rightarrow> None
            | Inr dt \<Rightarrow> Some dt))"

text \<open>\<open>dt.isoformat() if dt else None\<close>; a \<open>datetime\<close> object is never false.\<close>

definition ts_of :: "datetime option \<Rightarrow> string option" where
  "ts_of dt = (case dt of None \<Rightarrow> None | Some d \<Rightarrow> Some (isoformat d))"

text \<open>The body of the loop over \<open>channel.findall("item")\<close>: it cannot raise.\<close>

definition rss_item :: "world \<Rightarrow> string \<Rightarrow> element \<Rightarrow> item" where
  "rss_item w url it =
     (let title' = strip (or_empty (findtext it ''title''));
          link' = strip (or_empty (findtext it ''link''));
          pub = strip (or_empty (findtext it ''pubDate''));
          dt = try_parsedate w (Some pub)
      in \<lparr>title = title', link = Some link', published = Some pub,
          published_ts = ts_of dt, source = url\<rparr>)"

fun rss_loop :: "world \<Rightarrow> string \<Rightarrow> element list \<Rightarrow> item list \<Rightarrow> item list" where
  "rss_loop w url [] items = items"
| "rss_loop w url (it # rest) items = rss_loop w url rest (items @ [rss_item w url it])"

text \<open>
  The body of the loop over the Atom entries. \<open>title_el.text.strip()\<close> raises
  \<open>AttributeError\<close> when the title element is there and has no text.
\<close>

definition atom_item :: "world \<Rightarrow> string \<Rightarrow> element \<Rightarrow> error + item" where
  "atom_item w url entry =
     (let title_el = find_el entry (atom ''title'');
          link_el = find_el entry (atom ''link'');
          updated_el = find_el entry (atom ''updated'');
          link' = (case link_el of Some l \<Rightarrow> get_attr l ''href'' | None \<Rightarrow> Some []);
          pub = (case updated_el of Some u \<Rightarrow> text_of u | None \<Rightarrow> Some []);
          dt = try_parsedate w pub
      in (case title_el of
            None \<Rightarrow>
              Inr \<lparr>title = [], link = link', published = pub,
                   published_ts = ts_of dt, source = url\<rparr>
          | Some t \<Rightarrow>
              (case text_of t of
                 None \<Rightarrow> Inl AttributeError
               | Some s \<Rightarrow>
                   Inr \<lparr>title = strip s, link = link', published = pub,
                        published_ts = ts_of dt, source = url\<rparr>)))"

fun atom_loop :: "world \<Rightarrow> string \<Rightarrow> element list \<Rightarrow> item list \<Rightarrow> error + item list" where
  "atom_loop w url [] items = Inr items"
| "atom_loop w url (entry # rest) items =
     (case atom_item w url entry of
        Inl e \<Rightarrow> Inl e
      | Inr it \<Rightarrow> atom_loop w url rest (items @ [it]))"

text \<open>The \<open>try\<close> block of \<open>fetch_rss_feed\<close>: every raise is an \<open>Inl\<close>.\<close>

definition fetch_body :: "world \<Rightarrow> string \<Rightarrow> int \<Rightarrow> error + item list" where
  "fetch_body w url limit =
     (case requests_get w url of
        Inl e \<Rightarrow> Inl e
      | Inr resp \<Rightarrow>
          (case raise_for_status resp of
             Inl e \<Rightarrow> Inl e
           | Inr _ \<Rightarrow>
               (case ET_fromstring w (content resp) of
                  Inl e \<Rightarrow> Inl e
                | Inr root \<Rightarrow>
                    (case find_el root ''channel'' of
                       Some channel \<Rightarrow>
                         Inr (rss_loop w url (slice_to (findall channel ''item'') limit) [])
                     | None \<Rightarrow>
                         atom_loop w url (slice_to (findall root (atom ''entry'')) limit) []))))"

text \<open>\<open>except Exception: return []\<close>.\<close>

definition fetch_rss_feed :: "world \<Rightarrow> string \<Rightarrow> int \<Rightarrow> item list" where
  "fetch_rss_feed w url limit =
     (case fetch_body w url limit of Inl e \<Rightarrow> [] | Inr items \<Rightarrow> items)"

section \<open>get\_live\_news\<close>

definition feeds :: "string list" where
  "feeds =
     [''https://www.nasdaq.com/feed/rssoutbound?category=Investing'',
      ''https://www.marketwatch.com/feeds/topstories'',
      ''https://www.edweek.org/feeds/index.rss'']"

text \<open>\<open>for u in feeds: collected.extend(fetch_rss_feed(u, limit=limit))\<close>.\<close>

fun collect_loop :: "world \<Rightarrow> int \<Rightarrow> string list \<Rightarrow> item list \<Rightarrow> item list" where
  "collect_loop w limit [] collected = collected"
| "collect_loop w limit (u # us) collected =
     collect_loop w limit us (collected @ fetch_rss_feed w u limit)"

text \<open>The deduplication loop, with its two variables \<open>seen\<close> and \<open>unique\<close>.\<close>

fun dedup_loop :: "item list \<Rightarrow> string set \<Rightarrow> item list \<Rightarrow> item list" where
  "dedup_loop [] seen unique = unique"
| "dedup_loop (it # rest) seen unique =
     (if falsy (link it) then dedup_loop rest seen unique
      else if or_empty (link it) \<in> seen then dedup_loop rest seen unique
      else dedup_loop rest (insert (or_empty (link it)) seen) (unique @ [it]))"

text \<open>\<open>x.get("published_ts") or ""\<close>.\<close>

definition sort_key_fn :: "item \<Rightarrow> string" where
  "sort_key_fn x = or_empty (published_ts x)"

text \<open>
  \<open>xs.sort(key=k, reverse=True)\<close>: the list is reversed, sorted stably in ascending
  order of the keys, and reversed again, which is how the interpreter keeps the order
  of items with equal keys.
\<close>

definition sort_reverse :: "('a \<Rightarrow> string) \<Rightarrow> 'a list \<Rightarrow> 'a list" where
  "sort_reverse k xs = rev (sort_key k (rev xs))"

record news =
  items :: "item list"
  count :: nat

definition get_live_news :: "world \<Rightarrow> int \<Rightarrow> news" where
  "get_live_news w limit =
     (let collected = collect_loop w limit feeds [];
          unique = dedup_loop collected {} [];
          sorted_items = sort_reverse sort_key_fn unique;
          trimmed = slice_to sorted_items limit
      in \<lparr>items = trimmed, count = length trimmed\<rparr>)"

text \<open>The route \<open>GET /api/news\<close>: the query parameter \<open>limit\<close> is optional, 9 by default.\<close>

definition api_news :: "world \<Rightarrow> int option \<Rightarrow> news" where
  "api_news w q = get_live_news w (case q of None \<Rightarrow> 9 | Some l \<Rightarrow> l)"

section \<open>Auxiliary definitions\<close>

text \<open>
  The deduplication loop without its accumulator: what is appended to \<open>unique\<close> from
  the items still to be visited, given the links seen so far.
\<close>

fun dedup_from :: "string set \<Rightarrow> item list \<Rightarrow> item list" where
  "dedup_from seen [] = []"
| "dedup_from seen (it # rest) =
     (if falsy (link it) then dedup_from seen rest
      else if or_empty (link it) \<in> seen then dedup_from seen rest
      else it # dedup_from (insert (or_empty (link it)) seen) rest)"

section \<open>Concrete environments\<close>

text \<open>
  An environment given by two tables: each listed URL answers with the listed response
  and every other URL times out; each listed body parses to the listed tree and every
  other body is malformed.
\<close>

definition fixture ::
  "(string \<times> response) list \<Rightarrow> (string \<times> element) list
     \<Rightarrow> (string \<Rightarrow> error + datetime) \<Rightarrow> world" where
  "fixture replies docs pd =
     \<lparr>requests_get = (\<lambda>u. case map_of replies u of None \<Rightarrow> Inl Timeout | Some r \<Rightarrow> Inr r),
      ET_fromstring =
        (\<lambda>b. case map_of docs b of None \<Rightarrow> Inl ParseError | Some root \<Rightarrow> Inr root),
      parsedate_to_datetime = pd\<rparr>"

text \<open>An element that holds text only.\<close>

definition leaf :: "string \<Rightarrow> string \<Rightarrow> element" where
  "leaf t s = Element t [] (Some s) []"

text \<open>
  Feed A of the scenario in section 8 of the specification: an RSS document with one
  item, link \<open>x\<close>, dated in RFC 2822 form.
\<close>

definition feed_A :: element where
  "feed_A =
     Element ''rss'' [] None
       [Element ''channel'' [] None
          [Element ''item'' [] None
             [leaf ''link'' ''x'', leaf ''pubDate'' ''Mon, 01 Jan 2024 00:00:00 GMT'']]]"

text \<open>Feed B of the scenario: an Atom document with the entries \<open>x\<close> and \<open>y\<close>.\<close>

definition entry_B :: "string \<Rightarrow> string \<Rightarrow> element" where
  "entry_B href updated =
     Element (atom ''entry'') [] None
       [Element (atom ''link'') [(''href'', href)] None [], leaf (atom ''updated'') updated]"

definition feed_B :: element where
  "feed_B =
     Element (atom ''feed'') [] None
       [entry_B ''x'' ''2024-01-02T00:00:00Z'', entry_B ''y'' ''2024-01-03T00:00:00Z'']"

text \<open>
  The scenario: the first configured URL serves feed A, the second serves feed B, the
  third does not answer. The date parser is left open.
\<close>

definition scenario :: "(string \<Rightarrow> error + datetime) \<Rightarrow> world" where
  "scenario pd =
     fixture
       [(feeds ! 0, \<lparr>status_code = 200, content = ''A''\<rparr>),
        (feeds ! 1, \<lparr>status_code = 200, content = ''B''\<rparr>)]
       [(''A'', feed_A), (''B'', feed_B)] pd"

text \<open>
  What \<open>email.utils.parsedate_to_datetime\<close> does on the date strings used here. The
  RFC 2822 date of feed A parses, and \<open>isoformat()\<close> renders it with the offset of
  GMT. The parser splits its argument at whitespace and needs five fields (a date of
  three or four fields is first split further at its dashes or at the sign of its zone):
  an RFC 3339 timestamp such as \<open>2024-01-03T00:00:00Z\<close> is a single field, so the
  parser raises on it. No other string is passed to this parser below.
\<close>

definition scenario_dates :: "string \<Rightarrow> error + datetime" where
  "scenario_dates s =
     (if s = ''Mon, 01 Jan 2024 00:00:00 GMT'' then Inr (Datetime ''2024-01-01T00:00:00+00:00'')
      else Inl ValueError)"

text \<open>
  An RSS document with two items: the first has a title and a date with surrounding
  whitespace, the second has a link only.
\<close>

definition feed_C :: element where
  "feed_C =
     Element ''rss'' [] None
       [Element ''channel'' [] None
          [Element ''item'' [] None
             [leaf ''title'' '' First '', leaf ''link'' ''a'',
              leaf ''pubDate'' '' Mon, 01 Jan 2024 00:00:00 GMT ''],
           Element ''item'' [] None [leaf ''link'' ''b'']]]"

text \<open>An Atom document whose first entry has an empty \<open>title\<close> element.\<close>

definition feed_D :: element where
  "feed_D =
     Element (atom ''feed'') [] None
       [Element (atom ''entry'') [] None
          [Element (atom ''title'') [] None [],
           Element (atom ''link'') [(''href'', ''a'')] None []],
        Element (atom ''entry'') [] None
          [leaf (atom ''title'') ''B'',
           Element (atom ''link'') [(''href'', ''b'')] None []]]"

text \<open>
  An Atom document with one entry, whose \<open>link\<close> element has no \<open>href\<close> and whose
  \<open>updated\<close> element is empty.
\<close>

definition feed_E :: element where
  "feed_E =
     Element (atom ''feed'') [] None
       [Element (atom ''entry'') [] None
          [leaf (atom ''title'') ''T'',
           Element (atom ''link'') [] None [],
           Element (atom ''updated'') [] None []]]"

text \<open>
  An environment with one URL for each kind of answer: the documents above, a 404, a
  body that is not a feed, and (for any other URL) a timeout.
\<close>

definition probe :: world where
  "probe =
     fixture
       [(''rss'', \<lparr>status_code = 200, content = ''C''\<rparr>),
        (''atom'', \<lparr>status_code = 200, content = ''B''\<rparr>),
        (''untitled'', \<lparr>status_code = 200, content = ''D''\<rparr>),
        (''bare'', \<lparr>status_code = 200, content = ''E''\<rparr>),
        (''gone'', \<lparr>status_code = 404, content = ''Not Found''\<rparr>),
        (''html'', \<lparr>status_code = 200, content = ''<html>''\<rparr>)]
       [(''C'', feed_C), (''B'', feed_B), (''D'', feed_D), (''E'', feed_E)] scenario_dates"

text \<open>An item that carries a link and a source only.\<close>

definition linked :: "string option \<Rightarrow> string \<Rightarrow> item" where
  "linked l src =
     \<lparr>title = [], link = l, published = None, published_ts = None, source = src\<rparr>"

section \<open>The loops as list functions\<close>

lemma rss_loop_eq: "rss_loop w url es acc = acc @ map (rss_item w url) es"
  by (induction es arbitrary: acc) auto

lemma atom_loop_Inr:
  "atom_loop w url es acc = Inr r \<Longrightarrow> map Inr r = map Inr acc @ map (atom_item w url) es"
  by (induction es arbitrary: acc) (auto split: sum.splits)

lemma atom_loop_ok:
  "\<forall>e \<in> set es. \<exists>x. atom_item w url e = Inr x \<Longrightarrow> \<exists>r. atom_loop w url es acc = Inr r"
  by (induction es arbitrary: acc) (auto split: sum.splits)

lemma collect_loop_eq:
  "collect_loop w limit us acc = acc @ concat (map (\<lambda>u. fetch_rss_feed w u limit) us)"
  by (induction us arbitrary: acc) auto

lemma dedup_loop_eq: "dedup_loop xs seen acc = acc @ dedup_from seen xs"
  by (induction xs arbitrary: seen acc) auto

lemma dedup_from_subseq: "subseq (dedup_from seen xs) xs"
  by (induction xs arbitrary: seen) auto

lemma dedup_from_set: "set (dedup_from seen xs) \<subseteq> set xs"
  by (induction xs arbitrary: seen) auto

lemma dedup_from_truthy: "it \<in> set (dedup_from seen xs) \<Longrightarrow> \<not> falsy (link it)"
  by (induction xs arbitrary: seen) (auto split: if_splits)

lemma dedup_from_unseen: "it \<in> set (dedup_from seen xs) \<Longrightarrow> or_empty (link it) \<notin> seen"
proof (induction xs arbitrary: seen)
  case Nil
  then show ?case by simp
next
  case (Cons a xs)
  then show ?case
    by (fastforce split: if_splits)
qed

lemma dedup_from_filter:
  "l \<noteq> [] \<Longrightarrow> filter (\<lambda>it. link it = Some l) (dedup_from seen xs) =
     (if l \<in> seen then [] else take 1 (filter (\<lambda>it. link it = Some l) xs))"
proof (induction xs arbitrary: seen)
  case Nil
  then show ?case by simp
next
  case (Cons a xs)
  then show ?case
    by (auto simp: falsy_def or_empty_def split: option.splits)
qed

lemma dedup_from_distinct: "distinct (map link (dedup_from seen xs))"
proof (induction xs arbitrary: seen)
  case Nil
  then show ?case by simp
next
  case (Cons a xs)
  show ?case
  proof (cases "falsy (link a) \<or> or_empty (link a) \<in> seen")
    case True
    then show ?thesis using Cons.IH by auto
  next
    case False
    then have "link a \<notin> link ` set (dedup_from (insert (or_empty (link a)) seen) xs)"
      using dedup_from_unseen by fastforce
    then show ?thesis using False Cons.IH by auto
  qed
qed

section \<open>Slicing and sorting\<close>

lemma slice_to_take: "\<exists>n. slice_to xs k = take n xs"
  by (auto simp: slice_to_def)

lemma slice_to_length: "0 \<le> k \<Longrightarrow> int (length (slice_to xs k)) \<le> k"
  by (auto simp: slice_to_def)

lemma sort_reverse_set: "set (sort_reverse k xs) = set xs"
  by (simp add: sort_reverse_def)

lemma sort_reverse_distinct: "distinct (sort_reverse k xs) = distinct xs"
  by (simp add: sort_reverse_def)

lemma sort_reverse_sorted: "sorted_wrt (\<lambda>a b. k b \<le> k a) (sort_reverse k xs)"
proof -
  have "sorted (map k (sort_key k (rev xs)))" by (rule sorted_sort_key)
  then have "sorted_wrt (\<lambda>a b. k a \<le> k b) (sort_key k (rev xs))"
    by (simp add: sorted_map)
  then show ?thesis
    by (simp add: sort_reverse_def sorted_wrt_rev)
qed

lemma sort_reverse_stable:
  "filter (\<lambda>x. k x = v) (sort_reverse k xs) = filter (\<lambda>x. k x = v) xs"
  by (simp add: sort_reverse_def rev_filter[symmetric] sort_key_stable)

lemma items_get_live_news:
  "items (get_live_news w limit) =
     slice_to (sort_reverse sort_key_fn (dedup_loop (collect_loop w limit feeds []) {} [])) limit"
  by (simp add: get_live_news_def Let_def)

lemma count_get_live_news:
  "count (get_live_news w limit) = length (items (get_live_news w limit))"
  by (simp add: get_live_news_def Let_def)

lemma items_take:
  "\<exists>n. items (get_live_news w limit) =
     take n (sort_reverse sort_key_fn (dedup_from {} (collect_loop w limit feeds [])))"
  using slice_to_take [of "sort_reverse sort_key_fn (dedup_from {} (collect_loop w limit feeds []))" limit]
  by (simp add: items_get_live_news dedup_loop_eq)

section \<open>Stripping\<close>

lemma rev_split: "rev (dropWhile P (rev t)) @ rev (takeWhile P (rev t)) = t"
proof -
  have "rev (dropWhile P (rev t)) @ rev (takeWhile P (rev t)) =
      rev (takeWhile P (rev t) @ dropWhile P (rev t))"
    by (simp only: rev_append)
  also have "\<dots> = t"
    by (simp only: takeWhile_dropWhile_id rev_rev_ident)
  finally show ?thesis .
qed

lemma strip_decomp:
  "\<exists>a b. s = a @ strip s @ b \<and> (\<forall>c \<in> set a. isspace c) \<and> (\<forall>c \<in> set b. isspace c)"
proof -
  let ?t = "dropWhile isspace s"
  let ?a = "takeWhile isspace s"
  let ?b = "rev (takeWhile isspace (rev ?t))"
  have t: "?t = strip s @ ?b"
    unfolding strip_def by (rule rev_split [symmetric])
  have "s = ?a @ ?t" by simp
  with t have "s = ?a @ strip s @ ?b" by simp
  moreover have "\<forall>c \<in> set ?a. isspace c" by (auto dest: set_takeWhileD)
  moreover have "\<forall>c \<in> set ?b. isspace c" by (auto dest: set_takeWhileD)
  ultimately show ?thesis by blast
qed

lemma strip_id: "s = [] \<or> \<not> isspace (hd s) \<and> \<not> isspace (last s) \<Longrightarrow> strip s = s"
proof (cases s)
  case Nil
  then show ?thesis by (simp add: strip_def)
next
  case (Cons c cs)
  assume "s = [] \<or> \<not> isspace (hd s) \<and> \<not> isspace (last s)"
  with Cons have h: "\<not> isspace c" and l: "\<not> isspace (last s)" by auto
  from h Cons have 1: "dropWhile isspace s = s" by simp
  from Cons have "rev s \<noteq> []" by simp
  then obtain d ds where r: "rev s = d # ds" by (cases "rev s") auto
  then have "d = last s" using Cons by (metis hd_rev list.sel(1))
  with l have "\<not> isspace d" by simp
  then have "dropWhile isspace (d # ds) = d # ds" by simp
  then have 2: "dropWhile isspace (rev s) = rev s" by (simp only: r)
  show ?thesis unfolding strip_def by (simp only: 1 2 rev_rev_ident)
qed

section \<open>The concrete environments, evaluated\<close>

lemmas probe_defs =
  probe_def fixture_def leaf_def feed_B_def feed_C_def feed_D_def feed_E_def entry_B_def
  scenario_dates_def fetch_rss_feed_def fetch_body_def raise_for_status_def find_el_def
  findall_def findtext_def get_attr_def atom_def rss_item_def atom_item_def try_parsedate_def
  ts_of_def falsy_def or_empty_def strip_def isspace_def slice_to_def Let_def

lemma scenario_collected:
  "collect_loop (scenario pd) 9 feeds [] =
     [\<lparr>title = [], link = Some ''x'', published = Some ''Mon, 01 Jan 2024 00:00:00 GMT'',
       published_ts = ts_of (try_parsedate (scenario pd) (Some ''Mon, 01 Jan 2024 00:00:00 GMT'')),
       source = feeds ! 0\<rparr>,
      \<lparr>title = [], link = Some ''x'', published = Some ''2024-01-02T00:00:00Z'',
       published_ts = ts_of (try_parsedate (scenario pd) (Some ''2024-01-02T00:00:00Z'')),
       source = feeds ! 1\<rparr>,
      \<lparr>title = [], link = Some ''y'', published = Some ''2024-01-03T00:00:00Z'',
       published_ts = ts_of (try_parsedate (scenario pd) (Some ''2024-01-03T00:00:00Z'')),
       source = feeds ! 1\<rparr>]"
  by (simp add: fixture_def leaf_def feed_A_def feed_B_def entry_B_def scenario_def
      feeds_def fetch_rss_feed_def fetch_body_def raise_for_status_def find_el_def findall_def
      findtext_def get_attr_def atom_def rss_item_def atom_item_def
      falsy_def or_empty_def strip_def isspace_def slice_to_def Let_def)

lemma scenario_items:
  "get_live_news (scenario scenario_dates) 9 =
     \<lparr>items =
        [\<lparr>title = [], link = Some ''x'', published = Some ''Mon, 01 Jan 2024 00:00:00 GMT'',
          published_ts = Some ''2024-01-01T00:00:00+00:00'', source = feeds ! 0\<rparr>,
         \<lparr>title = [], link = Some ''y'', published = Some ''2024-01-03T00:00:00Z'',
          published_ts = None, source = feeds ! 1\<rparr>],
      count = 2\<rparr>"
  unfolding get_live_news_def scenario_collected
  by (simp add: try_parsedate_def ts_of_def falsy_def
      or_empty_def scenario_def fixture_def scenario_dates_def sort_reverse_def sort_key_fn_def
      slice_to_def Let_def)

lemma probe_rss:
  "fetch_rss_feed probe ''rss'' 6 =
     [\<lparr>title = ''First'', link = Some ''a'', published = Some ''Mon, 01 Jan 2024 00:00:00 GMT'',
       published_ts = Some ''2024-01-01T00:00:00+00:00'', source = ''rss''\<rparr>,
      \<lparr>title = [], link = Some ''b'', published = Some [], published_ts = None,
       source = ''rss''\<rparr>]"
  by (simp add: probe_defs)

lemma probe_rss_neg:
  "fetch_rss_feed probe ''rss'' (- 1) =
     [\<lparr>title = ''First'', link = Some ''a'', published = Some ''Mon, 01 Jan 2024 00:00:00 GMT'',
       published_ts = Some ''2024-01-01T00:00:00+00:00'', source = ''rss''\<rparr>]"
  by (simp add: probe_defs)

lemma probe_rss_reply:
  "requests_get probe ''rss'' = Inr \<lparr>status_code = 200, content = ''C''\<rparr>"
  "raise_for_status \<lparr>status_code = 200, content = ''C''\<rparr> = Inr ()"
  "ET_fromstring probe (content \<lparr>status_code = 200, content = ''C''\<rparr>) = Inr feed_C"
  "find_el feed_C ''channel'' = Some (hd (children feed_C))"
  by (simp_all add: probe_def fixture_def raise_for_status_def feed_C_def find_el_def findall_def)

lemma probe_atom_reply:
  "requests_get probe ''atom'' = Inr \<lparr>status_code = 200, content = ''B''\<rparr>"
  "raise_for_status \<lparr>status_code = 200, content = ''B''\<rparr> = Inr ()"
  "ET_fromstring probe (content \<lparr>status_code = 200, content = ''B''\<rparr>) = Inr feed_B"
  "find_el feed_B ''channel'' = None"
  by (simp_all add: probe_def fixture_def raise_for_status_def feed_B_def entry_B_def
      find_el_def findall_def atom_def)

section \<open>The claims\<close>

subsection \<open>C1: the scenario of two feeds\<close>

text \<open>
  C1. In the scenario (feed A with the RSS item \<open>x\<close>, feed B with the Atom entries
  \<open>x\<close> and \<open>y\<close>, limit 9) the specification expects \<open>y\<close> first and \<open>x\<close> second.
  The program returns two items, the occurrence of \<open>x\<close> from feed A and \<open>y\<close> from
  feed B, but in the other order, \<open>x\<close> first: whenever the RFC 2822 parser rejects
  the Atom timestamp of \<open>y\<close>, the entry gets no \<open>published_ts\<close>, its sort key is the
  empty string, and it sorts last whatever the parser makes of the date of \<open>x\<close>.
\<close>

theorem scenario_order:
  assumes "pd ''2024-01-03T00:00:00Z'' = Inl e"
  shows "map link (items (get_live_news (scenario pd) 9)) = [Some ''x'', Some ''y'']
         \<and> map source (items (get_live_news (scenario pd) 9)) = [feeds ! 0, feeds ! 1]
         \<and> count (get_live_news (scenario pd) 9) = 2"
proof -
  have y: "ts_of (try_parsedate (scenario pd) (Some ''2024-01-03T00:00:00Z'')) = None"
    using assms
    by (simp add: try_parsedate_def ts_of_def falsy_def or_empty_def scenario_def fixture_def)
  have "items (get_live_news (scenario pd) 9) =
      [\<lparr>title = [], link = Some ''x'', published = Some ''Mon, 01 Jan 2024 00:00:00 GMT'',
        published_ts =
          ts_of (try_parsedate (scenario pd) (Some ''Mon, 01 Jan 2024 00:00:00 GMT'')),
        source = feeds ! 0\<rparr>,
       \<lparr>title = [], link = Some ''y'', published = Some ''2024-01-03T00:00:00Z'',
        published_ts = None, source = feeds ! 1\<rparr>]"
    by (simp add: items_get_live_news scenario_collected y falsy_def or_empty_def
        sort_reverse_def sort_key_fn_def slice_to_def)
  then show ?thesis
    by (simp add: count_get_live_news)
qed

text \<open>The scenario with the standard library's results on its three date strings.\<close>

theorem scenario_order_witness:
  "scenario_dates ''2024-01-03T00:00:00Z'' = Inl ValueError
   \<and> map link (items (get_live_news (scenario scenario_dates) 9)) = [Some ''x'', Some ''y'']
   \<and> map source (items (get_live_news (scenario scenario_dates) 9)) = [feeds ! 0, feeds ! 1]
   \<and> count (get_live_news (scenario scenario_dates) 9) = 2"
  using scenario_order [of scenario_dates ValueError]
  by (simp add: scenario_dates_def)

subsection \<open>C2: missing and empty optional elements\<close>

text \<open>
  C2. A missing or empty optional element should give the empty string and never lose
  an item. On the Atom path the program does otherwise: an entry whose \<open>title\<close> element
  is empty raises \<open>AttributeError\<close>, so the whole feed gives no item at all (the second
  entry of the document, which is complete, is lost too); and a \<open>link\<close> element
  without \<open>href\<close> or an empty \<open>updated\<close> element gives \<open>None\<close>, not the empty string.
\<close>

theorem atom_empty_title_drops_feed:
  "fetch_body probe ''untitled'' 6 = Inl AttributeError
   \<and> fetch_rss_feed probe ''untitled'' 6 = []
   \<and> fetch_rss_feed probe ''bare'' 6 =
       [\<lparr>title = ''T'', link = None, published = None, published_ts = None,
         source = ''bare''\<rparr>]"
  by (simp add: probe_defs)

subsection \<open>C3: failures give the empty list\<close>

text \<open>
  C3. Whatever fails inside \<open>fetch_rss_feed\<close>, the result is the empty list: when the
  request raises (timeout, connection error), when the status is an error status, when
  the body is not XML, and when any later step of the routine raises. The routine itself
  returns a list in every case: nothing reaches the aggregator but a list.
\<close>

theorem fetch_rss_feed_failure:
  "(requests_get w url = Inl e \<longrightarrow> fetch_rss_feed w url limit = [])
   \<and> (requests_get w url = Inr resp \<and> raise_for_status resp = Inl e
        \<longrightarrow> fetch_rss_feed w url limit = [])
   \<and> (requests_get w url = Inr resp \<and> raise_for_status resp = Inr ()
        \<and> ET_fromstring w (content resp) = Inl e \<longrightarrow> fetch_rss_feed w url limit = [])
   \<and> (fetch_body w url limit = Inl e \<longrightarrow> fetch_rss_feed w url limit = [])"
  by (simp add: fetch_rss_feed_def fetch_body_def)

text \<open>A timeout, a 404, a body that is not XML, and an exception while reading entries.\<close>

theorem fetch_rss_feed_failure_witness:
  "requests_get probe ''slow'' = Inl Timeout
   \<and> fetch_rss_feed probe ''slow'' 6 = []
   \<and> requests_get probe ''gone'' = Inr \<lparr>status_code = 404, content = ''Not Found''\<rparr>
   \<and> raise_for_status \<lparr>status_code = 404, content = ''Not Found''\<rparr> = Inl HTTPError
   \<and> fetch_rss_feed probe ''gone'' 6 = []
   \<and> requests_get probe ''html'' = Inr \<lparr>status_code = 200, content = ''<html>''\<rparr>
   \<and> raise_for_status \<lparr>status_code = 200, content = ''<html>''\<rparr> = Inr ()
   \<and> ET_fromstring probe ''<html>'' = Inl ParseError
   \<and> fetch_rss_feed probe ''html'' 6 = []
   \<and> fetch_body probe ''untitled'' 6 = Inl AttributeError
   \<and> fetch_rss_feed probe ''untitled'' 6 = []"
proof -
  have a: "requests_get probe ''slow'' = Inl Timeout"
    by (simp add: probe_def fixture_def)
  have b: "requests_get probe ''gone'' = Inr \<lparr>status_code = 404, content = ''Not Found''\<rparr>"
    "raise_for_status \<lparr>status_code = 404, content = ''Not Found''\<rparr> = Inl HTTPError"
    by (simp_all add: probe_def fixture_def raise_for_status_def)
  have c: "requests_get probe ''html'' = Inr \<lparr>status_code = 200, content = ''<html>''\<rparr>"
    "raise_for_status \<lparr>status_code = 200, content = ''<html>''\<rparr> = Inr ()"
    "ET_fromstring probe ''<html>'' = Inl ParseError"
    by (simp_all add: probe_def fixture_def raise_for_status_def)
  have d: "fetch_body probe ''untitled'' 6 = Inl AttributeError"
    by (simp add: probe_defs)
  show ?thesis
    using a b c d
      fetch_rss_feed_failure [of probe "''slow''" Timeout 6]
      fetch_rss_feed_failure [of probe "''gone''" HTTPError 6
        "\<lparr>status_code = 404, content = ''Not Found''\<rparr>"]
      fetch_rss_feed_failure [of probe "''html''" ParseError 6
        "\<lparr>status_code = 200, content = ''<html>''\<rparr>"]
      fetch_rss_feed_failure [of probe "''untitled''" AttributeError 6]
    by simp
qed

subsection \<open>C4: deduplication\<close>

text \<open>
  C4. The deduplication loop visits the concatenated items once and in order: what it
  keeps is a subsequence of its input, no kept item has an empty (or absent) link, and
  for every non-empty link the kept items with that link are exactly the first input
  item with that link (none when no input item has it). So of two items with the same
  non-empty link only the first in source order survives.
\<close>

theorem dedup_first_wins:
  "subseq (dedup_loop xs {} []) xs
   \<and> (\<forall>it \<in> set (dedup_loop xs {} []). \<not> falsy (link it))
   \<and> (\<forall>l. l \<noteq> [] \<longrightarrow>
         filter (\<lambda>it. link it = Some l) (dedup_loop xs {} []) =
         take 1 (filter (\<lambda>it. link it = Some l) xs))"
  by (simp add: dedup_loop_eq dedup_from_subseq dedup_from_truthy dedup_from_filter)

text \<open>Five items: \<open>x\<close>, no link, \<open>x\<close> again, an empty link, \<open>y\<close>.\<close>

theorem dedup_first_wins_witness:
  "''x'' \<noteq> []
   \<and> dedup_loop [linked (Some ''x'') ''a'', linked None ''a'', linked (Some ''x'') ''b'',
        linked (Some []) ''b'', linked (Some ''y'') ''b''] {} []
       = [linked (Some ''x'') ''a'', linked (Some ''y'') ''b'']
   \<and> filter (\<lambda>it. link it = Some ''x'')
        (dedup_loop [linked (Some ''x'') ''a'', linked None ''a'', linked (Some ''x'') ''b'',
           linked (Some []) ''b'', linked (Some ''y'') ''b''] {} [])
       = take 1 (filter (\<lambda>it. link it = Some ''x'')
           [linked (Some ''x'') ''a'', linked None ''a'', linked (Some ''x'') ''b'',
            linked (Some []) ''b'', linked (Some ''y'') ''b''])"
  using dedup_first_wins [of "[linked (Some ''x'') ''a'', linked None ''a'',
        linked (Some ''x'') ''b'', linked (Some []) ''b'', linked (Some ''y'') ''b'']"]
  by (simp add: linked_def falsy_def or_empty_def)

subsection \<open>C5: the order of the output\<close>

text \<open>
  C5. In the items of the response, each item's sort key (its \<open>published_ts\<close>, the
  empty string when that is absent) is at least the key of the item after it, in the
  order of strings; so the items without a timestamp come last. The sort is stable: for
  every key, the output's items with that key are, in the same order, a prefix of the
  deduplicated list's items with that key.
\<close>

theorem news_sorted_stable:
  "(\<forall>i. Suc i < length (items (get_live_news w limit)) \<longrightarrow>
        sort_key_fn (items (get_live_news w limit) ! Suc i)
          \<le> sort_key_fn (items (get_live_news w limit) ! i))
   \<and> (\<forall>v. prefix (filter (\<lambda>x. sort_key_fn x = v) (items (get_live_news w limit)))
              (filter (\<lambda>x. sort_key_fn x = v)
                (dedup_loop (collect_loop w limit feeds []) {} [])))"
proof -
  let ?u = "dedup_from {} (collect_loop w limit feeds [])"
  obtain n where n: "items (get_live_news w limit) = take n (sort_reverse sort_key_fn ?u)"
    using items_take by blast
  have s: "sorted_wrt (\<lambda>a b. sort_key_fn b \<le> sort_key_fn a) (items (get_live_news w limit))"
    unfolding n by (rule sorted_wrt_take) (rule sort_reverse_sorted)
  have adj: "\<forall>i. Suc i < length (items (get_live_news w limit)) \<longrightarrow>
        sort_key_fn (items (get_live_news w limit) ! Suc i)
          \<le> sort_key_fn (items (get_live_news w limit) ! i)"
    using s by (simp add: sorted_wrt_iff_nth_less)
  have "prefix (filter (\<lambda>x. sort_key_fn x = v) (items (get_live_news w limit)))
          (filter (\<lambda>x. sort_key_fn x = v) ?u)" for v
  proof -
    have "prefix (filter (\<lambda>x. sort_key_fn x = v) (take n (sort_reverse sort_key_fn ?u)))
            (filter (\<lambda>x. sort_key_fn x = v) (sort_reverse sort_key_fn ?u))"
      by (rule filter_mono_prefix) (rule take_is_prefix)
    then show ?thesis by (simp add: n sort_reverse_stable)
  qed
  then show ?thesis using adj by (simp add: dedup_loop_eq)
qed

text \<open>The scenario: the first pair of the output, and the items without a timestamp.\<close>

theorem news_sorted_stable_witness:
  "Suc 0 < length (items (get_live_news (scenario scenario_dates) 9))
   \<and> sort_key_fn (items (get_live_news (scenario scenario_dates) 9) ! Suc 0)
       \<le> sort_key_fn (items (get_live_news (scenario scenario_dates) 9) ! 0)
   \<and> prefix (filter (\<lambda>x. sort_key_fn x = []) (items (get_live_news (scenario scenario_dates) 9)))
       (filter (\<lambda>x. sort_key_fn x = [])
         (dedup_loop (collect_loop (scenario scenario_dates) 9 feeds []) {} []))"
  using news_sorted_stable [of "scenario scenario_dates" 9]
  by (simp add: scenario_items)

subsection \<open>C6: the length of the output\<close>

text \<open>
  C6, as amended. For every requested limit that is not negative (9 when the request
  gives none), the response holds at most that many items, and its count is their
  number. (A negative limit is a slice bound counted from the end, so the bound
  fails there: see the counterexample.)
\<close>

theorem news_length_le_limit:
  "0 \<le> (case q of None \<Rightarrow> 9 | Some l \<Rightarrow> l) \<Longrightarrow>
     int (length (items (api_news w q))) \<le> (case q of None \<Rightarrow> 9 | Some l \<Rightarrow> l)
     \<and> count (api_news w q) = length (items (api_news w q))"
  by (simp add: api_news_def items_get_live_news count_get_live_news slice_to_length)

theorem news_length_le_limit_witness:
  "(0::int) \<le> 1
   \<and> int (length (items (api_news (scenario scenario_dates) (Some 1)))) \<le> 1
   \<and> int (length (items (api_news (scenario scenario_dates) None))) \<le> 9"
  using news_length_le_limit [of "Some 1" "scenario scenario_dates"]
    news_length_le_limit [of None "scenario scenario_dates"]
  by simp

text \<open>With \<open>limit = -1\<close> the response has no item, which is still more than \<open>-1\<close>.\<close>

theorem negative_limit_counterexample:
  "items (api_news (scenario scenario_dates) (Some (- 1))) = []
   \<and> \<not> int (length (items (api_news (scenario scenario_dates) (Some (- 1))))) \<le> - 1"
  by (simp add: api_news_def items_get_live_news fixture_def leaf_def feed_A_def feed_B_def
      entry_B_def scenario_def scenario_dates_def feeds_def fetch_rss_feed_def fetch_body_def
      raise_for_status_def find_el_def findall_def findtext_def get_attr_def atom_def
      rss_item_def atom_item_def try_parsedate_def ts_of_def falsy_def or_empty_def strip_def
      isspace_def slice_to_def sort_reverse_def sort_key_fn_def Let_def)

subsection \<open>C7: the first k items, in document order\<close>

text \<open>
  C7, as amended. For a document that was fetched and parsed, and every limit \<open>k\<close> that
  is not negative: an RSS document gives the items built from the first \<open>min k N\<close> of
  its \<open>N\<close> item elements, in document order; an Atom document gives the items built
  from the first \<open>min k N\<close> of its entries, in document order, provided none of these
  entries raises (none has a \<open>title\<close> element without text).
\<close>

theorem parser_first_k:
  assumes "requests_get w url = Inr resp" and "raise_for_status resp = Inr ()"
    and "ET_fromstring w (content resp) = Inr root" and "0 \<le> k"
  shows "(\<forall>channel. find_el root ''channel'' = Some channel \<longrightarrow>
            fetch_rss_feed w url k =
              map (rss_item w url) (take (nat k) (findall channel ''item''))
            \<and> length (fetch_rss_feed w url k) = min (nat k) (length (findall channel ''item'')))
         \<and> (find_el root ''channel'' = None \<longrightarrow>
              (\<forall>e \<in> set (take (nat k) (findall root (atom ''entry''))).
                 \<exists>x. atom_item w url e = Inr x) \<longrightarrow>
              map Inr (fetch_rss_feed w url k) =
                map (atom_item w url) (take (nat k) (findall root (atom ''entry'')))
              \<and> length (fetch_rss_feed w url k) =
                  min (nat k) (length (findall root (atom ''entry''))))"
proof (intro conjI allI impI)
  fix channel assume "find_el root ''channel'' = Some channel"
  then show r: "fetch_rss_feed w url k =
      map (rss_item w url) (take (nat k) (findall channel ''item''))"
    using assms by (simp add: fetch_rss_feed_def fetch_body_def rss_loop_eq slice_to_def)
  show "length (fetch_rss_feed w url k) = min (nat k) (length (findall channel ''item''))"
    unfolding r by simp
next
  let ?es = "take (nat k) (findall root (atom ''entry''))"
  assume c: "find_el root ''channel'' = None"
    and ok: "\<forall>e \<in> set ?es. \<exists>x. atom_item w url e = Inr x"
  obtain r where r: "atom_loop w url ?es [] = Inr r"
    using atom_loop_ok [OF ok] by blast
  have "fetch_rss_feed w url k = r"
    using assms c r by (simp add: fetch_rss_feed_def fetch_body_def slice_to_def)
  then show m: "map Inr (fetch_rss_feed w url k) = map (atom_item w url) ?es"
    using atom_loop_Inr [OF r] by simp
  have "length (map Inr (fetch_rss_feed w url k) :: (error + item) list) = length ?es"
    unfolding m by simp
  then show "length (fetch_rss_feed w url k) =
      min (nat k) (length (findall root (atom ''entry'')))"
    by simp
qed

text \<open>An RSS document of two items and an Atom document of two entries, with \<open>k = 1\<close>.\<close>

theorem parser_first_k_witness:
  "requests_get probe ''rss'' = Inr \<lparr>status_code = 200, content = ''C''\<rparr>
   \<and> raise_for_status \<lparr>status_code = 200, content = ''C''\<rparr> = Inr ()
   \<and> ET_fromstring probe ''C'' = Inr feed_C
   \<and> (0::int) \<le> 1
   \<and> find_el feed_C ''channel'' = Some (hd (children feed_C))
   \<and> fetch_rss_feed probe ''rss'' 1 =
       map (rss_item probe ''rss'') (take (nat 1) (findall (hd (children feed_C)) ''item''))
   \<and> requests_get probe ''atom'' = Inr \<lparr>status_code = 200, content = ''B''\<rparr>
   \<and> ET_fromstring probe ''B'' = Inr feed_B
   \<and> find_el feed_B ''channel'' = None
   \<and> map Inr (fetch_rss_feed probe ''atom'' 1) =
       map (atom_item probe ''atom'') (take (nat 1) (findall feed_B (atom ''entry'')))"
proof -
  note a = probe_rss_reply and b = probe_atom_reply
  have ok: "\<forall>e \<in> set (take (nat 1) (findall feed_B (atom ''entry''))).
      \<exists>x. atom_item probe ''atom'' e = Inr x"
    by (simp add: feed_B_def entry_B_def leaf_def findall_def find_el_def atom_def
        atom_item_def Let_def)
  show ?thesis
    using a b ok
      parser_first_k [OF a(1) a(2) a(3), of 1]
      parser_first_k [OF b(1) b(2) b(3), of 1]
    by simp
qed

text \<open>
  With \<open>k = -1\<close> the RSS document of two items gives its first item: one item, where
  \<open>min k N\<close> is negative.
\<close>

theorem negative_k_counterexample:
  "length (findall (hd (children feed_C)) ''item'') = 2
   \<and> length (fetch_rss_feed probe ''rss'' (- 1)) = 1
   \<and> \<not> int (length (fetch_rss_feed probe ''rss'' (- 1))) \<le> min (- 1) 2"
  by (simp add: probe_rss_neg) (simp add: feed_C_def findall_def)

subsection \<open>C8: links of the output\<close>

text \<open>
  C8. Every item of the response has a link that is neither absent nor empty, and no
  two items of the response have the same link.
\<close>

theorem final_links:
  "(\<forall>it \<in> set (items (get_live_news w limit)). link it \<noteq> None \<and> link it \<noteq> Some [])
   \<and> distinct (map link (items (get_live_news w limit)))"
proof -
  let ?u = "dedup_from {} (collect_loop w limit feeds [])"
  obtain n where n: "items (get_live_news w limit) = take n (sort_reverse sort_key_fn ?u)"
    using items_take by blast
  have sub: "set (items (get_live_news w limit)) \<subseteq> set ?u"
    unfolding n using set_take_subset [of n "sort_reverse sort_key_fn ?u"]
    by (simp add: sort_reverse_set)
  have 1: "\<forall>it \<in> set (items (get_live_news w limit)). link it \<noteq> None \<and> link it \<noteq> Some []"
  proof
    fix it assume "it \<in> set (items (get_live_news w limit))"
    then have "\<not> falsy (link it)" using sub dedup_from_truthy by blast
    then show "link it \<noteq> None \<and> link it \<noteq> Some []"
      by (auto simp: falsy_def split: option.splits)
  qed
  have d: "distinct (map link ?u)" by (rule dedup_from_distinct)
  then have "distinct ?u" and inj: "inj_on link (set ?u)"
    by (simp_all add: distinct_map)
  then have "distinct (sort_reverse sort_key_fn ?u)"
    by (simp add: sort_reverse_distinct)
  then have "distinct (take n (sort_reverse sort_key_fn ?u))" by (rule distinct_take)
  moreover have "inj_on link (set (take n (sort_reverse sort_key_fn ?u)))"
    using inj sub unfolding n by (rule inj_on_subset)
  ultimately have "distinct (map link (items (get_live_news w limit)))"
    unfolding n by (simp add: distinct_map)
  with 1 show ?thesis by simp
qed

theorem final_links_witness:
  "items (get_live_news (scenario scenario_dates) 9) ! 0
     \<in> set (items (get_live_news (scenario scenario_dates) 9))
   \<and> link (items (get_live_news (scenario scenario_dates) 9) ! 0) = Some ''x''
   \<and> link (items (get_live_news (scenario scenario_dates) 9) ! 0) \<noteq> None
   \<and> link (items (get_live_news (scenario scenario_dates) 9) ! 0) \<noteq> Some []
   \<and> distinct (map link (items (get_live_news (scenario scenario_dates) 9)))"
  using final_links [of "scenario scenario_dates" 9]
  by (simp add: scenario_items)

subsection \<open>C9: the published text\<close>

text \<open>
  C9, as amended. For a document that was fetched and parsed: the \<open>published\<close> field
  of an RSS item is the text of its \<open>pubDate\<close> element with the whitespace at both
  ends stripped (the empty string when there is no such element), and the \<open>published\<close>
  field of an Atom entry is the text of its \<open>updated\<close> element as the document gives
  it (the empty string when there is no such element). Stripping removes a run of
  whitespace at each end and nothing else, so a date without whitespace around it is
  kept as it is.
\<close>

theorem published_is_stripped_text:
  assumes "requests_get w url = Inr resp" and "raise_for_status resp = Inr ()"
    and "ET_fromstring w (content resp) = Inr root"
  shows "(\<forall>channel. find_el root ''channel'' = Some channel \<longrightarrow>
            map published (fetch_rss_feed w url limit) =
              map (\<lambda>it. Some (strip (or_empty (findtext it ''pubDate''))))
                (slice_to (findall channel ''item'') limit))
         \<and> (find_el root ''channel'' = None \<longrightarrow>
              (\<forall>e \<in> set (slice_to (findall root (atom ''entry'')) limit).
                 \<exists>x. atom_item w url e = Inr x) \<longrightarrow>
              map published (fetch_rss_feed w url limit) =
                map (\<lambda>e. case find_el e (atom ''updated'') of
                            None \<Rightarrow> Some [] | Some u \<Rightarrow> text_of u)
                  (slice_to (findall root (atom ''entry'')) limit))
         \<and> (\<forall>s. \<exists>a b. s = a @ strip s @ b
                \<and> (\<forall>c \<in> set a. isspace c) \<and> (\<forall>c \<in> set b. isspace c))
         \<and> (\<forall>s. s = [] \<or> \<not> isspace (hd s) \<and> \<not> isspace (last s) \<longrightarrow> strip s = s)"
proof (intro conjI allI impI)
  fix channel assume "find_el root ''channel'' = Some channel"
  then show "map published (fetch_rss_feed w url limit) =
      map (\<lambda>it. Some (strip (or_empty (findtext it ''pubDate''))))
        (slice_to (findall channel ''item'') limit)"
    using assms by (simp add: fetch_rss_feed_def fetch_body_def rss_loop_eq rss_item_def Let_def)
next
  let ?es = "slice_to (findall root (atom ''entry'')) limit"
  assume c: "find_el root ''channel'' = None"
    and ok: "\<forall>e \<in> set ?es. \<exists>x. atom_item w url e = Inr x"
  obtain r where r: "atom_loop w url ?es [] = Inr r"
    using atom_loop_ok [OF ok] by blast
  have f: "fetch_rss_feed w url limit = r"
    using assms c r by (simp add: fetch_rss_feed_def fetch_body_def)
  have m: "map Inr r = map (atom_item w url) ?es"
    using atom_loop_Inr [OF r] by simp
  have p: "published x =
      (case find_el e (atom ''updated'') of None \<Rightarrow> Some [] | Some u \<Rightarrow> text_of u)"
    if "atom_item w url e = Inr x" for e x
    using that by (auto simp: atom_item_def Let_def split: option.splits)
  have "length r = length ?es" using m by (metis length_map)
  moreover have "\<forall>i < length ?es. atom_item w url (?es ! i) = Inr (r ! i)"
    using m by (metis length_map nth_map)
  ultimately have "map published r =
      map (\<lambda>e. case find_el e (atom ''updated'') of None \<Rightarrow> Some [] | Some u \<Rightarrow> text_of u) ?es"
    by (intro nth_equalityI) (simp_all add: p)
  with f show "map published (fetch_rss_feed w url limit) =
      map (\<lambda>e. case find_el e (atom ''updated'') of None \<Rightarrow> Some [] | Some u \<Rightarrow> text_of u) ?es"
    by simp
next
  fix s show "\<exists>a b. s = a @ strip s @ b
      \<and> (\<forall>c \<in> set a. isspace c) \<and> (\<forall>c \<in> set b. isspace c)"
    by (rule strip_decomp)
next
  fix s assume "s = [] \<or> \<not> isspace (hd s) \<and> \<not> isspace (last s)"
  then show "strip s = s" by (rule strip_id)
qed

theorem published_is_stripped_text_witness:
  "requests_get probe ''rss'' = Inr \<lparr>status_code = 200, content = ''C''\<rparr>
   \<and> raise_for_status \<lparr>status_code = 200, content = ''C''\<rparr> = Inr ()
   \<and> ET_fromstring probe ''C'' = Inr feed_C
   \<and> find_el feed_C ''channel'' = Some (hd (children feed_C))
   \<and> map published (fetch_rss_feed probe ''rss'' 6) =
       map (\<lambda>it. Some (strip (or_empty (findtext it ''pubDate''))))
         (slice_to (findall (hd (children feed_C)) ''item'') 6)
   \<and> requests_get probe ''atom'' = Inr \<lparr>status_code = 200, content = ''B''\<rparr>
   \<and> ET_fromstring probe ''B'' = Inr feed_B
   \<and> find_el feed_B ''channel'' = None
   \<and> map published (fetch_rss_feed probe ''atom'' 6) =
       map (\<lambda>e. case find_el e (atom ''updated'') of None \<Rightarrow> Some [] | Some u \<Rightarrow> text_of u)
         (slice_to (findall feed_B (atom ''entry'')) 6)
   \<and> map published (fetch_rss_feed probe ''atom'' 6) =
       [Some ''2024-01-02T00:00:00Z'', Some ''2024-01-03T00:00:00Z'']
   \<and> \<not> isspace (hd ''1 Jan'') \<and> \<not> isspace (last ''1 Jan'') \<and> strip ''1 Jan'' = ''1 Jan''"
proof -
  note a = probe_rss_reply and b = probe_atom_reply
  have ok: "\<forall>e \<in> set (slice_to (findall feed_B (atom ''entry'')) 6).
      \<exists>x. atom_item probe ''atom'' e = Inr x"
    by (simp add: feed_B_def entry_B_def leaf_def findall_def find_el_def atom_def atom_item_def
        slice_to_def Let_def)
  have v: "map (\<lambda>e. case find_el e (atom ''updated'') of None \<Rightarrow> Some [] | Some u \<Rightarrow> text_of u)
         (slice_to (findall feed_B (atom ''entry'')) 6) =
       [Some ''2024-01-02T00:00:00Z'', Some ''2024-01-03T00:00:00Z'']"
    by (simp add: feed_B_def entry_B_def leaf_def findall_def find_el_def atom_def slice_to_def)
  have s: "\<not> isspace (hd ''1 Jan'')" "\<not> isspace (last ''1 Jan'')"
    by (simp_all add: isspace_def)
  show ?thesis
    using a b ok v s
      published_is_stripped_text [OF a(1) a(2) a(3), of 6]
      published_is_stripped_text [OF b(1) b(2) b(3), of 6]
    by simp
qed

text \<open>
  The first item of the RSS document has a date with a space before and after it; the
  \<open>published\<close> field is the date without them, not the text as the feed gives it.
\<close>

theorem published_unmodified_counterexample:
  "findtext (hd (findall (hd (children feed_C)) ''item'')) ''pubDate''
     = Some '' Mon, 01 Jan 2024 00:00:00 GMT ''
   \<and> published (hd (fetch_rss_feed probe ''rss'' 6)) = Some ''Mon, 01 Jan 2024 00:00:00 GMT''
   \<and> published (hd (fetch_rss_feed probe ''rss'' 6))
       \<noteq> findtext (hd (findall (hd (children feed_C)) ''item'')) ''pubDate''"
  by (simp add: probe_rss)
    (simp add: feed_C_def leaf_def findall_def find_el_def findtext_def or_empty_def)

subsection \<open>C10: aggregation selects and reorders only\<close>

text \<open>
  C10. Every item of the response is, field for field, an item that
  \<open>fetch_rss_feed\<close> returned for one of the configured feeds with the same limit:
  deduplication, sorting and truncation change no field of any item.
\<close>

theorem news_items_from_feeds:
  "set (items (get_live_news w limit)) \<subseteq> (\<Union>u \<in> set feeds. set (fetch_rss_feed w u limit))"
proof -
  let ?c = "collect_loop w limit feeds []"
  obtain n where n:
    "items (get_live_news w limit) = take n (sort_reverse sort_key_fn (dedup_from {} ?c))"
    using items_take by blast
  have "set (items (get_live_news w limit)) \<subseteq> set (dedup_from {} ?c)"
    unfolding n using set_take_subset [of n "sort_reverse sort_key_fn (dedup_from {} ?c)"]
    by (simp add: sort_reverse_set)
  also have "\<dots> \<subseteq> set ?c"
    by (rule dedup_from_set)
  also have "set ?c = (\<Union>u \<in> set feeds. set (fetch_rss_feed w u limit))"
    by (simp add: collect_loop_eq)
  finally show ?thesis .
qed

theorem news_items_from_feeds_witness:
  "set (items (get_live_news (scenario scenario_dates) 9))
     \<subseteq> (\<Union>u \<in> set feeds. set (fetch_rss_feed (scenario scenario_dates) u 9))"
  using news_items_from_feeds [of "scenario scenario_dates" 9]
  by simp

end
